theory Spec2Isabelle
  imports Main "HOL-Library.Word" "HOL-Library.Sublist" "HOL-Library.Log_Nat"
begin

section \<open>JavaScript strings\<close>

text \<open>
  A JavaScript string is a sequence of UTF-16 code units.  ASCII text is written with
  \<open>js\<close>; the currency symbols of the market-value pattern are given by their code units.
\<close>

type_synonym jschar = "16 word"
type_synonym jsstring = "jschar list"

definition js :: "string \<Rightarrow> jsstring" where
  "js s = map of_char s"

definition euro :: jschar where "euro = 0x20AC"
definition dollar :: jschar where "dollar = 0x24"
definition pound :: jschar where "pound = 0xA3"

text \<open>The class \<open>\d\<close> of a regular expression without the \<open>u\<close> flag: the ten ASCII digits.\<close>

definition is_digit :: "jschar \<Rightarrow> bool" where
  "is_digit c \<longleftrightarrow> 0x30 \<le> c \<and> c \<le> 0x39"

text \<open>
  The class \<open>\s\<close>, which is also what \<open>String.prototype.trim\<close> strips: the WhiteSpace and
  LineTerminator code points of ECMAScript.
\<close>

definition is_space :: "jschar \<Rightarrow> bool" where
  "is_space c \<longleftrightarrow>
     c = 0x09 \<or> c = 0x0A \<or> c = 0x0B \<or> c = 0x0C \<or> c = 0x0D \<or> c = 0x20 \<or> c = 0xA0 \<or>
     c = 0x1680 \<or> (0x2000 \<le> c \<and> c \<le> 0x200A) \<or> c = 0x2028 \<or> c = 0x2029 \<or>
     c = 0x202F \<or> c = 0x205F \<or> c = 0x3000 \<or> c = 0xFEFF"

definition trim :: "jsstring \<Rightarrow> jsstring" where
  "trim s = rev (dropWhile is_space (rev (dropWhile is_space s)))"

text \<open>\<open>x || 'N/A'\<close> on a string: the empty string is falsy.\<close>

definition NA :: jsstring where
  "NA = js ''N/A''"

definition or_NA :: "jsstring \<Rightarrow> jsstring" where
  "or_NA s = (if s = [] then NA else s)"

text \<open>\<open>x || 'N/A'\<close> on a value that may be \<open>undefined\<close>.\<close>

definition opt_or_NA :: "jsstring option \<Rightarrow> jsstring" where
  "opt_or_NA v = (case v of None \<Rightarrow> NA | Some s \<Rightarrow> or_NA s)"

text \<open>
  \<open>s.split(sep)\<close> for a string separator: the pieces between the successive occurrences
  of \<open>sep\<close>, found from left to right.  An empty separator splits into single code units.
\<close>

fun split_aux :: "jsstring \<Rightarrow> jsstring \<Rightarrow> jsstring \<Rightarrow> jsstring list" where
  "split_aux sep cur [] = [rev cur]"
| "split_aux sep cur (c # cs) =
     (if sep \<noteq> [] \<and> prefix sep (c # cs)
      then rev cur # split_aux sep [] (drop (length sep - 1) cs)
      else split_aux sep (c # cur) cs)"

definition split :: "jsstring \<Rightarrow> jsstring \<Rightarrow> jsstring list" where
  "split s sep = (if sep = [] then map (\<lambda>c. [c]) s else split_aux sep [] s)"

text \<open>Reading an array at an index: \<open>undefined\<close> out of range.\<close>

definition at_index :: "'a list \<Rightarrow> nat \<Rightarrow> 'a option" where
  "at_index xs i = (if i < length xs then Some (xs ! i) else None)"

text \<open>\<open>s.replace(/\./g, '')\<close> and \<open>s.replace(',', '.')\<close> (a string pattern replaces the first
  occurrence only).\<close>

definition remove_dots :: "jsstring \<Rightarrow> jsstring" where
  "remove_dots s = filter (\<lambda>c. c \<noteq> 0x2E) s"

fun replace_first_comma :: "jsstring \<Rightarrow> jsstring" where
  "replace_first_comma [] = []"
| "replace_first_comma (c # cs) = (if c = 0x2C then 0x2E # cs else c # replace_first_comma cs)"

section \<open>Regular expressions\<close>

text \<open>
  The patterns of the source are regular-expression literals.  They are embedded as syntax
  trees and run by a backtracking matcher that returns every way to match, in the order in
  which the ECMAScript matcher tries them (a greedy quantifier tries one more iteration
  before it tries to stop, an alternation tries its left side first).  The first element of
  that list is what \<open>String.prototype.match\<close> finds at a given start index.  No pattern of
  the source has a capture group inside a quantifier, so groups are never reset.
\<close>

datatype regex =
    Eps
  | Chr "jschar \<Rightarrow> bool"
  | Seq regex regex
  | Alt regex regex
  | Star regex
  | Group nat regex
  | Bol
  | Eol

record mstate =
  pos :: nat
  rest :: jsstring
  caps :: "(nat \<times> jsstring) list"

function rmatch :: "regex \<Rightarrow> mstate \<Rightarrow> mstate list" where
  "rmatch Eps s = [s]"
| "rmatch (Chr p) s =
     (case rest s of
        [] \<Rightarrow> []
      | c # cs \<Rightarrow> if p c then [s\<lparr>pos := pos s + 1, rest := cs\<rparr>] else [])"
| "rmatch (Seq r1 r2) s = concat (map (rmatch r2) (rmatch r1 s))"
| "rmatch (Alt r1 r2) s = rmatch r1 s @ rmatch r2 s"
| "rmatch (Star r) s =
     concat (map (rmatch (Star r))
       (filter (\<lambda>s'. length (rest s') < length (rest s)) (rmatch r s))) @ [s]"
| "rmatch (Group n r) s =
     map (\<lambda>s'. s'\<lparr>caps := (n, take (pos s' - pos s) (rest s)) # caps s'\<rparr>) (rmatch r s)"
| "rmatch Bol s = (if pos s = 0 then [s] else [])"
| "rmatch Eol s = (if rest s = [] then [s] else [])"
  by pat_completeness auto
termination
  by (relation "(\<lambda>(r, s). size r) <*mlex*> measure (\<lambda>(r, s). length (rest s))")
     (auto simp: wf_mlex mlex_less mlex_leq)

text \<open>Bounded quantifiers and literals, written out in terms of the constructors.\<close>

definition lit :: "jschar \<Rightarrow> regex" where
  "lit c = Chr (\<lambda>x. x = c)"

definition one_of :: "jschar list \<Rightarrow> regex" where
  "one_of cs = Chr (\<lambda>x. x \<in> set cs)"

definition digit :: regex where
  "digit = Chr is_digit"

definition space :: regex where
  "space = Chr is_space"

definition Opt :: "regex \<Rightarrow> regex" where
  "Opt r = Alt r Eps"

fun seqs :: "regex list \<Rightarrow> regex" where
  "seqs [] = Eps"
| "seqs [r] = r"
| "seqs (r # rs) = Seq r (seqs rs)"

definition lits :: "string \<Rightarrow> regex" where
  "lits s = seqs (map lit (js s))"

text \<open>\<open>r{n}\<close> and the greedy \<open>r{0,n}\<close>; \<open>r{m,n}\<close> is \<open>r{m}\<close> followed by \<open>r{0,n-m}\<close>.\<close>

fun ntimes :: "nat \<Rightarrow> regex \<Rightarrow> regex" where
  "ntimes 0 r = Eps"
| "ntimes (Suc 0) r = r"
| "ntimes (Suc n) r = Seq r (ntimes n r)"

fun upto :: "nat \<Rightarrow> regex \<Rightarrow> regex" where
  "upto 0 r = Eps"
| "upto (Suc n) r = Opt (Seq r (upto n r))"

definition rep :: "nat \<Rightarrow> nat \<Rightarrow> regex \<Rightarrow> regex" where
  "rep m n r = Seq (ntimes m r) (upto (n - m) r)"

text \<open>
  \<open>str.match(re)\<close> for a pattern without the \<open>g\<close> flag: the start indices are tried from
  left to right, the end of the string included; the result is \<open>null\<close> (\<open>None\<close>) or the
  matched text with the captured groups.
\<close>

record match_result =
  whole :: jsstring
  groups :: "(nat \<times> jsstring) list"

fun exec_from :: "regex \<Rightarrow> nat \<Rightarrow> jsstring \<Rightarrow> match_result option" where
  "exec_from re i [] =
     (case rmatch re \<lparr>pos = i, rest = [], caps = []\<rparr> of
        [] \<Rightarrow> None
      | m # _ \<Rightarrow> Some \<lparr>whole = [], groups = caps m\<rparr>)"
| "exec_from re i (c # cs) =
     (case rmatch re \<lparr>pos = i, rest = c # cs, caps = []\<rparr> of
        [] \<Rightarrow> exec_from re (i + 1) cs
      | m # _ \<Rightarrow> Some \<lparr>whole = take (pos m - i) (c # cs), groups = caps m\<rparr>)"

definition match :: "jsstring \<Rightarrow> regex \<Rightarrow> match_result option" where
  "match s re = exec_from re 0 s"

text \<open>\<open>m[n]\<close> on a match: a group that took no part in the match is \<open>undefined\<close>.\<close>

definition capture :: "match_result \<Rightarrow> nat \<Rightarrow> jsstring option" where
  "capture m n = (if n = 0 then Some (whole m) else map_of (groups m) n)"

text \<open>\<open>/^(\d{2}\/\d{2}\/\d{4}) \((\d{2})\)$/\<close>\<close>

definition dob_re :: regex where
  "dob_re =
     seqs [Bol,
           Group 1 (seqs [ntimes 2 digit, lit 0x2F, ntimes 2 digit, lit 0x2F, ntimes 4 digit]),
           lit 0x20, lit 0x28, Group 2 (ntimes 2 digit), lit 0x29, Eol]"

text \<open>\<open>/\d{1},\d{2}/\<close>\<close>

definition height_re :: regex where
  "height_re = seqs [ntimes 1 digit, lit 0x2C, ntimes 2 digit]"

text \<open>\<open>/(\d{1,3}(?:\.\d{3})*(?:,\d{2})?)\s*(mil|mi\.?)\s*([\<euro>$\<pounds>])/\<close> (the three currency
  symbols are the euro sign, the dollar sign and the pound sign).\<close>

definition marketValue_re :: regex where
  "marketValue_re =
     seqs [Group 1 (seqs [rep 1 3 digit,
                          Star (Seq (lit 0x2E) (ntimes 3 digit)),
                          Opt (Seq (lit 0x2C) (ntimes 2 digit))]),
           Star space,
           Group 2 (Alt (lits ''mil'') (Seq (lits ''mi'') (Opt (lit 0x2E)))),
           Star space,
           Group 3 (one_of [euro, dollar, pound])]"

text \<open>\<open>/verein\/(\d+)/\<close>\<close>

definition verein_re :: regex where
  "verein_re = seqs [lits ''verein/'', Group 1 (Seq digit (Star digit))]"

section \<open>Numbers\<close>

text \<open>
  A JavaScript number is an IEEE 754 double.  A finite double is represented by the rational
  it denotes (the two zeros are not distinguished); the other values are \<open>NaN\<close> and the two
  infinities.  \<open>to_double\<close> is rounding to the nearest double, ties to even, with a 53-bit
  significand, gradual underflow below \<open>2^-1022\<close> and overflow to infinity from \<open>2^1024\<close>.
\<close>

datatype jsnum = NaN | Num rat | PosInf | NegInf

fun neg :: "jsnum \<Rightarrow> jsnum" where
  "neg NaN = NaN"
| "neg (Num q) = Num (- q)"
| "neg PosInf = NegInf"
| "neg NegInf = PosInf"

text \<open>
  For \<open>q > 0\<close>, the exponent \<open>e\<close> with \<open>2^e \<le> q < 2^(e+1)\<close>: the bit length of the integer
  part when \<open>q \<ge> 1\<close>, and of the integer part of the inverse otherwise.
\<close>

definition ilog2 :: "rat \<Rightarrow> int" where
  "ilog2 q = (if 1 \<le> q then bitlen \<lfloor>q\<rfloor> - 1 else - bitlen (\<lceil>1 / q\<rceil> - 1))"

definition round_half_even :: "rat \<Rightarrow> int" where
  "round_half_even x =
     (let n = \<lfloor>x\<rfloor>; d = x - of_int n
      in if d < 1 / 2 then n else if 1 / 2 < d then n + 1 else if even n then n else n + 1)"

definition round_pos :: "rat \<Rightarrow> jsnum" where
  "round_pos q =
     (let p = max (ilog2 q) (- 1022) - 52;
          r = of_int (round_half_even (q / 2 powi p)) * 2 powi p
      in if 2 ^ 1024 \<le> r then PosInf else Num r)"

definition to_double :: "rat \<Rightarrow> jsnum" where
  "to_double q =
     (if q = 0 then Num 0 else if 0 < q then round_pos q else neg (round_pos (- q)))"

definition signed_inf :: "rat \<Rightarrow> jsnum" where
  "signed_inf q = (if q = 0 then NaN else if 0 < q then PosInf else NegInf)"

text \<open>The operator \<open>*\<close> on numbers.\<close>

fun fmul :: "jsnum \<Rightarrow> jsnum \<Rightarrow> jsnum" where
  "fmul NaN y = NaN"
| "fmul x NaN = NaN"
| "fmul (Num a) (Num b) = to_double (a * b)"
| "fmul (Num a) PosInf = signed_inf a"
| "fmul (Num a) NegInf = signed_inf (- a)"
| "fmul PosInf (Num b) = signed_inf b"
| "fmul NegInf (Num b) = signed_inf (- b)"
| "fmul PosInf PosInf = PosInf"
| "fmul PosInf NegInf = NegInf"
| "fmul NegInf PosInf = NegInf"
| "fmul NegInf NegInf = PosInf"

text \<open>
  \<open>parseFloat\<close>: leading white space is skipped, then the longest prefix that is a decimal
  literal is read (an optional sign, then \<open>Infinity\<close> or digits with an optional fraction
  and an optional exponent); the result is \<open>NaN\<close> when there is no such prefix, and the
  double nearest to the literal's value otherwise.
\<close>

definition digits_val :: "jsstring \<Rightarrow> int" where
  "digits_val ds = foldl (\<lambda>a c. 10 * a + (uint c - 48)) 0 ds"

definition parse_exponent :: "jsstring \<Rightarrow> int" where
  "parse_exponent s =
     (case s of
        [] \<Rightarrow> 0
      | c # cs \<Rightarrow>
          if c = 0x65 \<or> c = 0x45 then
            (case cs of
               [] \<Rightarrow> 0
             | d # ds \<Rightarrow>
                 if d = 0x2D then - digits_val (takeWhile is_digit ds)
                 else if d = 0x2B then digits_val (takeWhile is_digit ds)
                 else digits_val (takeWhile is_digit cs))
          else 0)"

definition parse_unsigned :: "jsstring \<Rightarrow> jsnum" where
  "parse_unsigned s =
     (if prefix (js ''Infinity'') s then PosInf
      else
        let ip = takeWhile is_digit s;
            r = dropWhile is_digit s;
            (fp, r') = (case r of
                          [] \<Rightarrow> ([], r)
                        | c # cs \<Rightarrow>
                            if c = 0x2E then (takeWhile is_digit cs, dropWhile is_digit cs)
                            else ([], r))
        in if ip = [] \<and> fp = [] then NaN
           else to_double ((of_int (digits_val ip) + of_int (digits_val fp) / 10 ^ length fp)
                           * 10 powi parse_exponent r'))"

definition parseFloat :: "jsstring \<Rightarrow> jsnum" where
  "parseFloat s =
     (case dropWhile is_space s of
        [] \<Rightarrow> NaN
      | c # cs \<Rightarrow>
          if c = 0x2D then neg (parse_unsigned cs)
          else if c = 0x2B then parse_unsigned cs
          else parse_unsigned (c # cs))"

section \<open>The document tree and the selector queries\<close>

text \<open>
  \<open>cheerio.load\<close> turns the response body into a tree of elements, text and comments.  The
  HTML parser is not part of the program; the model starts from the tree.  Tag names and
  attribute names are as the parser delivers them (lower case), and an element keeps one
  value per attribute name.
\<close>

datatype node =
    Element (tag: jsstring) (attrs: "(jsstring \<times> jsstring) list") (children: "node list")
  | Text jsstring
  | Comment jsstring

fun attr_of :: "node \<Rightarrow> jsstring \<Rightarrow> jsstring option" where
  "attr_of (Element t as cs) a = map_of as a"
| "attr_of (Text _) a = None"
| "attr_of (Comment _) a = None"

fun children_of :: "node \<Rightarrow> node list" where
  "children_of (Element t as cs) = cs"
| "children_of (Text _) = []"
| "children_of (Comment _) = []"

text \<open>The text content of a node: the text of its descendants, in document order.\<close>

fun text_of :: "node \<Rightarrow> jsstring" where
  "text_of (Element t as cs) = concat (map text_of cs)"
| "text_of (Text s) = s"
| "text_of (Comment _) = []"


text \<open>The white-space separated words of a \<open>class\<close> attribute.\<close>

fun tokens :: "jsstring \<Rightarrow> jsstring \<Rightarrow> jsstring list" where
  "tokens cur [] = (if cur = [] then [] else [rev cur])"
| "tokens cur (c # cs) =
     (if is_space c then (if cur = [] then tokens [] cs else rev cur # tokens [] cs)
      else tokens (c # cur) cs)"

definition class_list :: "node \<Rightarrow> jsstring list" where
  "class_list n = (case attr_of n (js ''class'') of None \<Rightarrow> [] | Some v \<Rightarrow> tokens [] v)"

definition has_class :: "string \<Rightarrow> node \<Rightarrow> bool" where
  "has_class c n \<longleftrightarrow> js c \<in> set (class_list n)"

text \<open>
  A compound selector such as \<open>table.items\<close>, \<open>.zentriert\<close>, \<open>a\<close> or \<open>td[rowspan="2"]\<close>: an
  optional tag name, class names and attribute values, all of which must hold.
\<close>

datatype simple = Simple (sel_tag: "string option") (sel_classes: "string list")
  (sel_attrs: "(string \<times> string) list")

definition tg :: "string \<Rightarrow> simple" where
  "tg t = Simple (Some t) [] []"

definition cls :: "string \<Rightarrow> simple" where
  "cls c = Simple None [c] []"

fun matches :: "simple \<Rightarrow> node \<Rightarrow> bool" where
  "matches (Simple t cs as) (Element t' as' cs') \<longleftrightarrow>
     (case t of None \<Rightarrow> True | Some x \<Rightarrow> js x = t') \<and>
     list_all (\<lambda>c. has_class c (Element t' as' cs')) cs \<and>
     list_all (\<lambda>(k, v). map_of as' (js k) = Some (js v)) as"
| "matches s (Text _) \<longleftrightarrow> False"
| "matches s (Comment _) \<longleftrightarrow> False"

text \<open>
  A selector is a comma-separated group of chs of compound selectors joined by the
  descendant combinator.  The tree is walked in document order; for each chain the walk
  carries the part that the ancestors have not matched yet.  An element is selected when
  it matches the last compound selector of a chain whose earlier ones are matched by
  ancestors, and it is selected once.
\<close>

fun advance :: "node \<Rightarrow> simple list \<Rightarrow> simple list" where
  "advance n (s # s' # r) = (if matches s n then s' # r else s # s' # r)"
| "advance n c = c"

fun emits :: "node \<Rightarrow> simple list \<Rightarrow> bool" where
  "emits n [s] \<longleftrightarrow> matches s n"
| "emits n c \<longleftrightarrow> False"

fun select_node :: "simple list list \<Rightarrow> node \<Rightarrow> node list" where
  "select_node chs (Element t as cs) =
     (if list_ex (emits (Element t as cs)) chs then [Element t as cs] else []) @
     concat (map (select_node (map (advance (Element t as cs)) chs)) cs)"
| "select_node chs (Text _) = []"
| "select_node chs (Comment _) = []"

text \<open>\<open>$(selector)\<close> on a document, given as the list of its top-level nodes.\<close>

definition select :: "simple list list \<Rightarrow> node list \<Rightarrow> node list" where
  "select chs doc = concat (map (select_node chs) doc)"

text \<open>
  \<open>$(x).find(selector)\<close>: the selector is matched below each node of the selection (the
  chs are scoped: their first compound selector is matched by a proper descendant).
  The program reads only the first element, its text or the length of a \<open>find\<close> on several
  nodes, where the order below the first context is the document order.
\<close>

definition find_in :: "node list \<Rightarrow> simple list list \<Rightarrow> node list" where
  "find_in sel chs = concat (map (\<lambda>n. select chs (children_of n)) sel)"

text \<open>\<open>.eq(i)\<close>, \<open>.text()\<close>, \<open>.attr(name)\<close> on a selection; \<open>.length\<close> is \<open>length\<close>.\<close>

definition eq_at :: "nat \<Rightarrow> node list \<Rightarrow> node list" where
  "eq_at i sel = take 1 (drop i sel)"

definition sel_text :: "node list \<Rightarrow> jsstring" where
  "sel_text sel = concat (map text_of sel)"

definition attr :: "node list \<Rightarrow> string \<Rightarrow> jsstring option" where
  "attr sel a = (case sel of [] \<Rightarrow> None | n # _ \<Rightarrow> attr_of n (js a))"

section \<open>The player record\<close>

text \<open>
  A field that the program fills from a capture group (\<open>match[1]\<close>) is a string or
  \<open>undefined\<close>, hence an option; \<open>null\<close> for the two optional objects is \<open>None\<close>.
\<close>

record marketValue =
  "value" :: jsnum
  currency :: "jsstring option"

record lastClub =
  signed_from_club_name :: jsstring
  signed_from_club_id :: "jsstring option"
  signed_from_club_image_url :: jsstring

record additionalInformation =
  content :: jsstring
  info_club_name :: jsstring
  info_club_id :: "jsstring option"
  info_club_image_url :: jsstring

record player =
  name :: jsstring
  player_id :: jsstring
  position :: jsstring
  shirtNumber :: jsstring
  player_image :: jsstring
  dateOfBirth :: "jsstring option"
  age :: "jsstring option"
  nationality :: "jsstring list"
  height :: jsstring
  foot :: jsstring
  injury :: bool
  captain :: bool
  suspension :: bool
  joined :: jsstring
  contractUntil :: jsstring
  marketValue :: marketValue
  lastClub :: "lastClub option"
  additionalInformation :: "additionalInformation option"

datatype error = NetworkError | BadStatus nat | TypeError

section \<open>The extraction rules of a row\<close>

text \<open>\<open>$(row).find('.zentriert').eq(i)\<close>\<close>

definition zentriert :: "node \<Rightarrow> nat \<Rightarrow> node list" where
  "zentriert row i = eq_at i (find_in [row] [[cls ''zentriert'']])"

definition hauptlink :: "node \<Rightarrow> node list" where
  "hauptlink row = find_in [row] [[cls ''hauptlink'', tg ''a'']]"

definition get_name :: "node \<Rightarrow> jsstring" where
  "get_name row = or_NA (trim (sel_text (eq_at 0 (hauptlink row))))"

text \<open>\<open>.attr('href').split("spieler/")[1] || 'N/A'\<close>: reading \<open>split\<close> of \<open>undefined\<close> throws.\<close>

definition get_id :: "node \<Rightarrow> error + jsstring" where
  "get_id row =
     (case attr (hauptlink row) ''href'' of
        None \<Rightarrow> Inl TypeError
      | Some href \<Rightarrow> Inr (opt_or_NA (at_index (split href (js ''spieler/'')) 1)))"

definition get_position :: "node \<Rightarrow> jsstring" where
  "get_position row = or_NA (trim (sel_text (eq_at 4 (find_in [row] [[tg ''td'']]))))"

definition get_shirtNumber :: "node \<Rightarrow> jsstring" where
  "get_shirtNumber row = or_NA (trim (sel_text (eq_at 0 (find_in [row] [[cls ''rn_nummer'']]))))"

definition get_image :: "node \<Rightarrow> jsstring" where
  "get_image row =
     opt_or_NA (attr (find_in [row] [[Simple (Some ''td'') [] [(''rowspan'', ''2'')], tg ''img'']])
                  ''data-src'')"

text \<open>\<open>.match(...)[1]\<close> and \<open>.match(...)[2]\<close>: reading an index of \<open>null\<close> throws.\<close>

definition dob_match :: "node \<Rightarrow> match_result option" where
  "dob_match row = match (trim (sel_text (zentriert row 1))) dob_re"

definition get_dateOfBirth :: "node \<Rightarrow> error + jsstring option" where
  "get_dateOfBirth row =
     (case dob_match row of None \<Rightarrow> Inl TypeError | Some m \<Rightarrow> Inr (capture m 1))"

definition get_age :: "node \<Rightarrow> error + jsstring option" where
  "get_age row =
     (case dob_match row of None \<Rightarrow> Inl TypeError | Some m \<Rightarrow> Inr (capture m 2))"

text \<open>The loop over the flag images pushes every title that is not \<open>'N/A'\<close>.\<close>

fun push_titles :: "node list \<Rightarrow> jsstring list \<Rightarrow> jsstring list" where
  "push_titles [] nationalities = nationalities"
| "push_titles (img # imgs) nationalities =
     (let nationality = opt_or_NA (attr [img] ''title'')
      in if nationality \<noteq> NA then push_titles imgs (nationalities @ [nationality])
         else push_titles imgs nationalities)"

definition get_nationality :: "node \<Rightarrow> jsstring list" where
  "get_nationality row =
     (let nationality_element = zentriert row 2;
          nationalities = push_titles (find_in nationality_element [[tg ''img'']]) []
      in if length nationalities > 0 then nationalities else [NA])"

text \<open>\<open>.match(/\d{1},\d{2}/)?.[0] || 'N/A'\<close>\<close>

definition get_height :: "node \<Rightarrow> jsstring" where
  "get_height row =
     opt_or_NA (case match (trim (sel_text (zentriert row 3))) height_re of
                  None \<Rightarrow> None
                | Some m \<Rightarrow> capture m 0)"

definition get_foot :: "node \<Rightarrow> jsstring" where
  "get_foot row = or_NA (trim (sel_text (zentriert row 4)))"

definition get_injury :: "node \<Rightarrow> bool" where
  "get_injury row = (if length (find_in [row] [[cls ''verletzt-table'']]) > 0 then True else False)"

definition get_captain :: "node \<Rightarrow> bool" where
  "get_captain row =
     (if length (find_in [row] [[cls ''kapitaenicon-table'']]) > 0 then True else False)"

definition get_suspension :: "node \<Rightarrow> bool" where
  "get_suspension row =
     (if length (find_in [row] [[cls ''ausfall-1-table'']]) > 0 then True else False)"

definition get_joined :: "node \<Rightarrow> jsstring" where
  "get_joined row = or_NA (trim (sel_text (zentriert row 5)))"

definition get_contractUntil :: "node \<Rightarrow> jsstring" where
  "get_contractUntil row = or_NA (trim (sel_text (zentriert row 7)))"

text \<open>
  The market value.  \<open>normalize_marketValue\<close> is the body of the rule from the trimmed cell
  text on; reading \<open>replace\<close> of an \<open>undefined\<close> first group would throw.
\<close>

definition normalize_marketValue :: "jsstring \<Rightarrow> error + marketValue" where
  "normalize_marketValue marketValueText =
     (if marketValueText \<noteq> NA then
        (case match marketValueText marketValue_re of
           Some valueMatch \<Rightarrow>
             (case capture valueMatch 1 of
                None \<Rightarrow> Inl TypeError
              | Some g \<Rightarrow>
                  let rawValue = replace_first_comma (remove_dots g);
                      unit = capture valueMatch 2;
                      currency = capture valueMatch 3;
                      numericValue =
                        (if unit = Some (js ''mi.'') then fmul (parseFloat rawValue) (Num 1000000)
                         else fmul (parseFloat rawValue) (Num 1000))
                  in Inr \<lparr>value = numericValue, currency = currency\<rparr>)
         | None \<Rightarrow> Inr \<lparr>value = Num 0, currency = Some NA\<rparr>)
      else Inr \<lparr>value = Num 0, currency = Some NA\<rparr>)"

definition get_marketValue :: "node \<Rightarrow> error + marketValue" where
  "get_marketValue row =
     normalize_marketValue
       (or_NA (trim (sel_text (eq_at 0 (find_in [row] [[cls ''rechts'']])))))"

text \<open>\<open>href?.match(/verein\/(\d+)/)\<close> followed by \<open>m ? m[1] : 'N/A'\<close>.\<close>

definition club_id_of :: "jsstring option \<Rightarrow> jsstring option" where
  "club_id_of href =
     (case href of
        None \<Rightarrow> Some NA
      | Some h \<Rightarrow>
          (case match h verein_re of None \<Rightarrow> Some NA | Some clubIdMatch \<Rightarrow> capture clubIdMatch 1))"

definition get_lastClub :: "node \<Rightarrow> lastClub option" where
  "get_lastClub row =
     (let linkElement = zentriert row 6
      in if length linkElement \<noteq> 0 then
           Some \<lparr>signed_from_club_name =
                    opt_or_NA (map_option trim (attr (find_in linkElement [[tg ''img'']]) ''title'')),
                  signed_from_club_id =
                    club_id_of (attr (find_in linkElement [[tg ''a'']]) ''href''),
                  signed_from_club_image_url =
                    opt_or_NA (attr (find_in linkElement [[tg ''img'']]) ''src'')\<rparr>
         else None)"

definition get_additionalInformation :: "node \<Rightarrow> additionalInformation option" where
  "get_additionalInformation row =
     (let linkElement = find_in [row] [[cls ''wechsel-kader-wappen'', tg ''a'']]
      in if length linkElement \<noteq> 0 then
           Some \<lparr>content = opt_or_NA (map_option trim (attr linkElement ''title'')),
                  info_club_name =
                    opt_or_NA (map_option trim (attr (find_in linkElement [[tg ''img'']]) ''title'')),
                  info_club_id = club_id_of (attr linkElement ''href''),
                  info_club_image_url =
                    opt_or_NA (attr (find_in linkElement [[tg ''img'']]) ''src'')\<rparr>
         else None)"

text \<open>
  The object literal of a row.  Its properties are evaluated in the order in which they are
  written, so the first rule that throws decides the exception.
\<close>

definition playerData :: "node \<Rightarrow> error + player" where
  "playerData row =
     (case get_id row of
        Inl e \<Rightarrow> Inl e
      | Inr i \<Rightarrow>
     (case get_dateOfBirth row of
        Inl e \<Rightarrow> Inl e
      | Inr d \<Rightarrow>
     (case get_age row of
        Inl e \<Rightarrow> Inl e
      | Inr a \<Rightarrow>
     (case get_marketValue row of
        Inl e \<Rightarrow> Inl e
      | Inr mv \<Rightarrow>
          Inr \<lparr>name = get_name row,
                player_id = i,
                position = get_position row,
                shirtNumber = get_shirtNumber row,
                player_image = get_image row,
                dateOfBirth = d,
                age = a,
                nationality = get_nationality row,
                height = get_height row,
                foot = get_foot row,
                injury = get_injury row,
                captain = get_captain row,
                suspension = get_suspension row,
                joined = get_joined row,
                contractUntil = get_contractUntil row,
                marketValue = mv,
                lastClub = get_lastClub row,
                additionalInformation = get_additionalInformation row\<rparr>))))"

section \<open>The squad scraper\<close>

text \<open>
  The world the function runs in: what the upstream site answers for a URL, and what has
  been written to the console.  An answer is a failed request or a status with the parsed
  body.
\<close>

datatype response = NetworkFailure | Response nat "node list"

record world =
  upstream :: "jsstring \<Rightarrow> response"
  console :: "(string \<times> error) list"

definition squad_url :: "jsstring \<Rightarrow> jsstring" where
  "squad_url id_clube =
     js ''https://www.transfermarkt.com.br/club/kader/verein/'' @ id_clube @ js ''/plus/1''"

text \<open>\<open>axios.get\<close> rejects when the request fails and when the status is not 2xx.\<close>

definition axios_get :: "world \<Rightarrow> jsstring \<Rightarrow> error + node list" where
  "axios_get w u =
     (case upstream w u of
        NetworkFailure \<Rightarrow> Inl NetworkError
      | Response status body \<Rightarrow>
          if 200 \<le> status \<and> status < 300 then Inr body else Inl (BadStatus status))"

text \<open>\<open>$('table.items tbody tr.odd, table.items tbody tr.even')\<close>\<close>

definition squad_rows :: "node list \<Rightarrow> node list" where
  "squad_rows doc =
     select [[Simple (Some ''table'') [''items''] [], tg ''tbody'', Simple (Some ''tr'') [''odd''] []],
             [Simple (Some ''table'') [''items''] [], tg ''tbody'', Simple (Some ''tr'') [''even''] []]]
       doc"

text \<open>The \<open>each\<close> loop: a row that throws ends the loop with the exception.\<close>

fun each_row :: "node list \<Rightarrow> player list \<Rightarrow> error + player list" where
  "each_row [] players = Inr players"
| "each_row (row # rows) players =
     (case playerData row of
        Inl e \<Rightarrow> Inl e
      | Inr p \<Rightarrow> each_row rows (players @ [p]))"

text \<open>The body of the \<open>try\<close> block.\<close>

definition try_block :: "jsstring \<Rightarrow> world \<Rightarrow> error + player list" where
  "try_block id_clube w =
     (case axios_get w (squad_url id_clube) of
        Inl e \<Rightarrow> Inl e
      | Inr data \<Rightarrow> each_row (squad_rows data) [])"

text \<open>\<open>getClubSquad\<close>: the \<open>catch\<close> branch logs the exception and returns the empty array.\<close>

definition getClubSquad :: "jsstring \<Rightarrow> world \<Rightarrow> player list \<times> world" where
  "getClubSquad id_clube w =
     (case try_block id_clube w of
        Inr players \<Rightarrow> (players, w)
      | Inl e \<Rightarrow> ([], w\<lparr>console := console w @ [(''Erro ao buscar os dados:'', e)]\<rparr>))"

section \<open>Sample markup\<close>

text \<open>Elements and text nodes written with ASCII strings, and the rows and pages used
  below to run the definitions.\<close>

definition el :: "string \<Rightarrow> (string \<times> string) list \<Rightarrow> node list \<Rightarrow> node" where
  "el t as cs = Element (js t) (map (\<lambda>(k, v). (js k, js v)) as) cs"

definition tnode :: "string \<Rightarrow> node" where
  "tnode s = Text (js s)"

text \<open>A row with a profile link and a date of birth, and nothing else.\<close>

definition good_row :: node where
  "good_row =
     el ''tr'' [(''class'', ''odd'')]
       [el ''td'' [(''class'', ''hauptlink'')]
          [el ''a'' [(''href'', ''/hugo-souza/profil/spieler/574901'')] [tnode ''Hugo Souza'']],
        el ''td'' [(''class'', ''zentriert'')] [tnode ''1''],
        el ''td'' [(''class'', ''zentriert'')] [tnode ''31/01/1999 (25)'']]"

text \<open>The same row with a date of birth that has no age.\<close>

definition bad_row :: node where
  "bad_row =
     el ''tr'' [(''class'', ''even'')]
       [el ''td'' [(''class'', ''hauptlink'')]
          [el ''a'' [(''href'', ''/pedro/profil/spieler/432895'')] [tnode ''Pedro'']],
        el ''td'' [(''class'', ''zentriert'')] [tnode ''9''],
        el ''td'' [(''class'', ''zentriert'')] [tnode ''20/06/1997'']]"

definition squad_page :: "node list \<Rightarrow> node list" where
  "squad_page rows =
     [el ''html'' []
        [el ''body'' []
           [el ''table'' [(''class'', ''items'')] [el ''tbody'' [] rows]]]]"

definition serving :: "response \<Rightarrow> world" where
  "serving r = \<lparr>upstream = (\<lambda>u. r), console = []\<rparr>"






text \<open>An amount of 310 digits: a one followed by 103 groups of three zeros.\<close>

definition huge_amount :: jsstring where
  "huge_amount = js ''1'' @ concat (replicate 103 (js ''.000''))"

text \<open>The row \<open>good_row\<close> with a market value of that amount in millions of euros.\<close>

definition huge_value_row :: node where
  "huge_value_row =
     el ''tr'' [(''class'', ''odd'')]
       [el ''td'' [(''class'', ''hauptlink'')]
          [el ''a'' [(''href'', ''/hugo-souza/profil/spieler/574901'')] [tnode ''Hugo Souza'']],
        el ''td'' [(''class'', ''zentriert'')] [tnode ''1''],
        el ''td'' [(''class'', ''zentriert'')] [tnode ''31/01/1999 (25)''],
        el ''td'' [(''class'', ''rechts'')] [Text (huge_amount @ js '' mi. '' @ [euro])]]"

text \<open>A row without a profile link.\<close>

definition no_link_row :: node where
  "no_link_row =
     el ''tr'' [(''class'', ''odd'')]
       [el ''td'' [(''class'', ''zentriert'')] [tnode ''1''],
        el ''td'' [(''class'', ''zentriert'')] [tnode ''31/01/1999 (25)'']]"

section \<open>Notions used in the proofs\<close>

text \<open>The group numbers of a pattern, and two syntactic conditions: every character class
  of the pattern lies within \<open>P\<close>; every match begins with a character of \<open>P\<close>.\<close>

fun gids :: "regex \<Rightarrow> nat set" where
  "gids (Seq r1 r2) = gids r1 \<union> gids r2"
| "gids (Alt r1 r2) = gids r1 \<union> gids r2"
| "gids (Star r) = gids r"
| "gids (Group n r) = insert n (gids r)"
| "gids r = {}"

fun chrs_in :: "(jschar \<Rightarrow> bool) \<Rightarrow> regex \<Rightarrow> bool" where
  "chrs_in P (Chr p) \<longleftrightarrow> (\<forall>c. p c \<longrightarrow> P c)"
| "chrs_in P (Seq r1 r2) \<longleftrightarrow> chrs_in P r1 \<and> chrs_in P r2"
| "chrs_in P (Alt r1 r2) \<longleftrightarrow> chrs_in P r1 \<and> chrs_in P r2"
| "chrs_in P (Star r) \<longleftrightarrow> chrs_in P r"
| "chrs_in P (Group n r) \<longleftrightarrow> chrs_in P r"
| "chrs_in P r \<longleftrightarrow> True"

fun starts_in :: "(jschar \<Rightarrow> bool) \<Rightarrow> regex \<Rightarrow> bool" where
  "starts_in P (Chr p) \<longleftrightarrow> (\<forall>c. p c \<longrightarrow> P c)"
| "starts_in P (Seq r1 r2) \<longleftrightarrow> starts_in P r1"
| "starts_in P (Alt r1 r2) \<longleftrightarrow> starts_in P r1 \<and> starts_in P r2"
| "starts_in P (Group n r) \<longleftrightarrow> starts_in P r"
| "starts_in P r \<longleftrightarrow> False"

definition consumed :: "regex \<Rightarrow> (jschar \<Rightarrow> bool) \<Rightarrow> (jschar \<Rightarrow> bool) \<Rightarrow> mstate \<Rightarrow> mstate \<Rightarrow> jsstring \<Rightarrow> bool" where
  "consumed r P Q s s' w \<longleftrightarrow>
     rest s = w @ rest s' \<and> pos s' = pos s + length w \<and>
     (chrs_in P r \<longrightarrow> list_all P w) \<and>
     (starts_in Q r \<longrightarrow> (\<exists>c w'. w = c # w' \<and> Q c)) \<and>
     (\<exists>new. caps s' = new @ caps s \<and> (\<forall>x \<in> set new. fst x \<in> gids r))"

text \<open>The characters of an amount: digits, the full stop and the comma.\<close>

definition amount_char :: "jschar \<Rightarrow> bool" where
  "amount_char c \<longleftrightarrow> is_digit c \<or> c = 0x2E \<or> c = 0x2C"

section \<open>The fail-soft boundary\<close>

lemma playerData_dob_fail: "dob_match row = None \<Longrightarrow> playerData row = Inl TypeError"
  by (simp add: playerData_def get_dateOfBirth_def get_id_def split: option.splits sum.splits)

lemma each_row_fail:
  "row \<in> set rows \<Longrightarrow> playerData row = Inl e \<Longrightarrow> \<exists>e'. each_row rows players = Inl e'"
  by (induction rows arbitrary: players) (auto split: sum.splits)

lemma getClubSquad_catch:
  "try_block i w = Inl e \<Longrightarrow>
     getClubSquad i w = ([], w\<lparr>console := console w @ [(''Erro ao buscar os dados:'', e)]\<rparr>)"
  by (simp add: getClubSquad_def)

lemma squad_rows_sample: "squad_rows (squad_page [good_row, bad_row]) = [good_row, bad_row]"
  by code_simp

lemma good_row_not_thrown: "\<not> isl (playerData good_row)"
  by code_simp

lemma good_row_player: "\<exists>p. playerData good_row = Inr p"
  using good_row_not_thrown by (cases "playerData good_row") simp_all

lemma bad_row_dob: "dob_match bad_row = None"
  by code_simp



text \<open>
  C3.  When the page is fetched and one of its roster rows has a second centered cell whose
  text does not match \<open>DD/MM/YYYY (AA)\<close>, the extraction of that row throws, the loop ends
  with the exception, and the call returns the empty sequence, whatever the other rows are.
\<close>

theorem malformed_row_discards_all:
  assumes "upstream w (squad_url i) = Response st body"
    and "200 \<le> st \<and> st < 300"
    and "row \<in> set (squad_rows body)"
    and "dob_match row = None"
  shows "playerData row = Inl TypeError \<and>
         (\<exists>e. each_row (squad_rows body) [] = Inl e) \<and>
         fst (getClubSquad i w) = []"
proof -
  have row: "playerData row = Inl TypeError"
    using assms(4) by (rule playerData_dob_fail)
  with assms(3) obtain e where e: "each_row (squad_rows body) [] = Inl e"
    using each_row_fail by blast
  with assms(1,2) have "try_block i w = Inl e"
    by (simp add: try_block_def axios_get_def)
  with row e show ?thesis
    by (auto simp: getClubSquad_catch)
qed

theorem malformed_row_discards_all_witness:
  "(\<exists>p. playerData good_row = Inr p) \<and>
   bad_row \<in> set (squad_rows (squad_page [good_row, bad_row])) \<and>
   dob_match bad_row = None \<and>
   fst (getClubSquad (js ''614'') (serving (Response 200 (squad_page [good_row, bad_row])))) = []"
proof -
  let ?w = "serving (Response 200 (squad_page [good_row, bad_row]))"
  have fetched: "upstream ?w (squad_url (js ''614'')) = Response 200 (squad_page [good_row, bad_row])"
    by (simp add: serving_def)
  have status: "(200::nat) \<le> 200 \<and> (200::nat) < 300"
    by simp
  have listed: "bad_row \<in> set (squad_rows (squad_page [good_row, bad_row]))"
    by (simp add: squad_rows_sample)
  have "fst (getClubSquad (js ''614'') ?w) = []"
    using malformed_row_discards_all [OF fetched status listed bad_row_dob] by blast
  with good_row_player listed bad_row_dob show ?thesis
    by blast
qed

text \<open>
  C9.  The sequence returned by \<open>getClubSquad\<close> depends on the world only through what the
  upstream site answers for the squad URL: two calls that see the same answer return equal
  sequences, in particular two calls in a row, since a call changes nothing but the console.
\<close>

theorem getClubSquad_deterministic:
  assumes "upstream w' (squad_url i) = upstream w (squad_url i)"
  shows "fst (getClubSquad i w') = fst (getClubSquad i w) \<and>
         fst (getClubSquad i (snd (getClubSquad i w))) = fst (getClubSquad i w)"
proof -
  have same: "try_block i v = try_block i w" if "upstream v (squad_url i) = upstream w (squad_url i)" for v
    using that by (simp add: try_block_def axios_get_def)
  have "upstream (snd (getClubSquad i w)) = upstream w"
    by (simp add: getClubSquad_def split: sum.splits)
  then have "try_block i (snd (getClubSquad i w)) = try_block i w"
    by (intro same) simp
  moreover have "try_block i w' = try_block i w"
    using assms by (rule same)
  ultimately show ?thesis
    by (simp add: getClubSquad_def split: sum.splits)
qed

theorem getClubSquad_deterministic_witness:
  "fst (getClubSquad (js ''614'')
          \<lparr>upstream = (\<lambda>u. Response 200 (squad_page [good_row])), console = [(''earlier'', TypeError)]\<rparr>) =
   fst (getClubSquad (js ''614'') (serving (Response 200 (squad_page [good_row]))))"
proof -
  let ?w' = "\<lparr>upstream = (\<lambda>u. Response 200 (squad_page [good_row])), console = [(''earlier'', TypeError)]\<rparr>"
  let ?w = "serving (Response 200 (squad_page [good_row]))"
  have "upstream ?w' (squad_url (js ''614'')) = upstream ?w (squad_url (js ''614''))"
    by (simp add: serving_def)
  from getClubSquad_deterministic [OF this] show ?thesis
    by blast
qed

section \<open>Selector queries and the descendants of a node\<close>





lemma find_in_empty: "find_in [] chs = []"
  by (simp add: find_in_def)

section \<open>Markers, nationality and the optional objects\<close>










section \<open>What a match consumes and captures\<close>

lemma consumed_append:
  assumes 1: "consumed r1 P Q s s1 w1" and 2: "consumed r2 P Q s1 s' w2"
    and c: "chrs_in P r \<Longrightarrow> chrs_in P r1 \<and> chrs_in P r2"
    and st: "starts_in Q r \<Longrightarrow> starts_in Q r1"
    and g: "gids r1 \<union> gids r2 \<subseteq> gids r"
  shows "consumed r P Q s s' (w1 @ w2)"
proof -
  from 1 2 have "rest s = (w1 @ w2) @ rest s'" and "pos s' = pos s + length (w1 @ w2)"
    by (simp_all add: consumed_def)
  moreover have "list_all P (w1 @ w2)" if "chrs_in P r"
    using 1 2 c [OF that] by (simp add: consumed_def)
  moreover have "\<exists>c w'. w1 @ w2 = c # w' \<and> Q c" if "starts_in Q r"
    using 1 st [OF that] by (auto simp: consumed_def)
  moreover have "\<exists>new. caps s' = new @ caps s \<and> (\<forall>x \<in> set new. fst x \<in> gids r)"
  proof -
    from 1 obtain n1 where n1: "caps s1 = n1 @ caps s" "\<forall>x \<in> set n1. fst x \<in> gids r1"
      by (auto simp: consumed_def)
    from 2 obtain n2 where n2: "caps s' = n2 @ caps s1" "\<forall>x \<in> set n2. fst x \<in> gids r2"
      by (auto simp: consumed_def)
    from n1 n2 g have "caps s' = (n2 @ n1) @ caps s \<and> (\<forall>x \<in> set (n2 @ n1). fst x \<in> gids r)"
      by auto
    then show ?thesis ..
  qed
  ultimately show ?thesis
    unfolding consumed_def by blast
qed

lemma consumed_weaken:
  assumes 1: "consumed r1 P Q s s' w"
    and c: "chrs_in P r \<Longrightarrow> chrs_in P r1"
    and st: "starts_in Q r \<Longrightarrow> starts_in Q r1"
    and g: "gids r1 \<subseteq> gids r"
  shows "consumed r P Q s s' w"
  using assms unfolding consumed_def by blast

declare rmatch.simps(5) [simp del]

lemma rmatch_Star_cases:
  assumes "s' \<in> set (rmatch (Star r) s)"
  obtains "s' = s"
  | s1 where "s1 \<in> set (rmatch r s)" "length (rest s1) < length (rest s)"
             "s' \<in> set (rmatch (Star r) s1)"
  using assms by (subst (asm) rmatch.simps(5)) auto

lemma rmatch_consumed:
  "s' \<in> set (rmatch r s) \<Longrightarrow> \<exists>w. consumed r P Q s s' w"
proof (induction r s arbitrary: s' rule: rmatch.induct)
  case (1 s)
  then show ?case by (simp add: consumed_def)
next
  case (2 p s)
  show ?case
  proof (cases "rest s")
    case Nil
    with 2 show ?thesis by simp
  next
    case (Cons c cs)
    with 2 have "p c" and "s' = s\<lparr>pos := pos s + 1, rest := cs\<rparr>"
      by (auto split: if_splits)
    with Cons have "consumed (Chr p) P Q s s' [c]"
      by (simp add: consumed_def)
    then show ?thesis ..
  qed
next
  case (3 r1 r2 s)
  then obtain s1 where s1: "s1 \<in> set (rmatch r1 s)" and s': "s' \<in> set (rmatch r2 s1)"
    by auto
  from "3.IH"(1) [OF s1] obtain w1 where w1: "consumed r1 P Q s s1 w1" ..
  from "3.IH"(2) [OF s1 s'] obtain w2 where w2: "consumed r2 P Q s1 s' w2" ..
  from w1 w2 have "consumed (Seq r1 r2) P Q s s' (w1 @ w2)"
    by (rule consumed_append) simp_all
  then show ?case ..
next
  case (4 r1 r2 s)
  then consider "s' \<in> set (rmatch r1 s)" | "s' \<in> set (rmatch r2 s)"
    by auto
  then show ?case
  proof cases
    case 1
    from "4.IH"(1) [OF this] obtain w where "consumed r1 P Q s s' w" ..
    then have "consumed (Alt r1 r2) P Q s s' w"
      by (rule consumed_weaken) simp_all
    then show ?thesis ..
  next
    case 2
    from "4.IH"(2) [OF this] obtain w where "consumed r2 P Q s s' w" ..
    then have "consumed (Alt r1 r2) P Q s s' w"
      by (rule consumed_weaken) simp_all
    then show ?thesis ..
  qed
next
  case (5 r s)
  from "5.prems" show ?case
  proof (cases rule: rmatch_Star_cases)
    case 1
    then have "consumed (Star r) P Q s s' []"
      by (simp add: consumed_def)
    then show ?thesis ..
  next
    case (2 s1)
    from "5.IH"(1) [OF 2(1)] obtain w1 where w1: "consumed r P Q s s1 w1" ..
    from 2(1,2) have "s1 \<in> set (filter (\<lambda>s'. length (rest s') < length (rest s)) (rmatch r s))"
      by simp
    from "5.IH"(2) [OF this 2(3)] obtain w2 where w2: "consumed (Star r) P Q s1 s' w2" ..
    from w1 w2 have "consumed (Star r) P Q s s' (w1 @ w2)"
      unfolding consumed_def by (auto simp: image_Un)
    then show ?thesis ..
  qed
next
  case (6 n r s)
  then obtain s1 where s1: "s1 \<in> set (rmatch r s)"
    and s': "s' = s1\<lparr>caps := (n, take (pos s1 - pos s) (rest s)) # caps s1\<rparr>"
    by auto
  from "6.IH" [OF s1] obtain w where w: "consumed r P Q s s1 w" ..
  then obtain new where new: "caps s1 = new @ caps s" "\<forall>x \<in> set new. fst x \<in> gids r"
    by (auto simp: consumed_def)
  let ?new = "(n, take (pos s1 - pos s) (rest s)) # new"
  from new s' have "caps s' = ?new @ caps s \<and> (\<forall>x \<in> set ?new. fst x \<in> gids (Group n r))"
    by simp
  then have "\<exists>new. caps s' = new @ caps s \<and> (\<forall>x \<in> set new. fst x \<in> gids (Group n r))" ..
  with w s' have "consumed (Group n r) P Q s s' w"
    unfolding consumed_def by simp
  then show ?case ..
next
  case (7 s)
  then show ?case by (simp add: consumed_def split: if_splits)
next
  case (8 s)
  then show ?case by (simp add: consumed_def split: if_splits)
qed

lemma exec_from_result:
  "exec_from re i t = Some m \<Longrightarrow>
     \<exists>j s'. j \<le> length t \<and>
            s' \<in> set (rmatch re \<lparr>pos = i + j, rest = drop j t, caps = []\<rparr>) \<and>
            groups m = caps s'"
proof (induction t arbitrary: i)
  case Nil
  show ?case
  proof (cases "rmatch re \<lparr>pos = i, rest = [], caps = []\<rparr>")
    case Nil
    with Nil.prems show ?thesis by simp
  next
    case (Cons s' ss)
    with Nil.prems have "groups m = caps s'"
      by auto
    with Cons have "0 \<le> length ([]::jsstring) \<and>
               s' \<in> set (rmatch re \<lparr>pos = i + 0, rest = drop 0 [], caps = []\<rparr>) \<and>
               groups m = caps s'"
      by simp
    then show ?thesis by blast
  qed
next
  case (Cons c cs)
  show ?case
  proof (cases "rmatch re \<lparr>pos = i, rest = c # cs, caps = []\<rparr>")
    case Nil
    with Cons.prems have "exec_from re (i + 1) cs = Some m"
      by simp
    from Cons.IH [OF this] obtain j s' where j: "j \<le> length cs"
      "s' \<in> set (rmatch re \<lparr>pos = i + 1 + j, rest = drop j cs, caps = []\<rparr>)" "groups m = caps s'"
      by blast
    then have "Suc j \<le> length (c # cs) \<and>
               s' \<in> set (rmatch re \<lparr>pos = i + Suc j, rest = drop (Suc j) (c # cs), caps = []\<rparr>) \<and>
               groups m = caps s'"
      by simp
    then show ?thesis by blast
  next
    case (Cons s' ss)
    with Cons.prems have "groups m = caps s'"
      by auto
    with Cons have "0 \<le> length (c # cs) \<and>
               s' \<in> set (rmatch re \<lparr>pos = i + 0, rest = drop 0 (c # cs), caps = []\<rparr>) \<and>
               groups m = caps s'"
      by simp
    then show ?thesis by blast
  qed
qed

lemma rmatch_Seq_cases:
  assumes "s' \<in> set (rmatch (Seq r1 r2) s)"
  obtains s1 where "s1 \<in> set (rmatch r1 s)" "s' \<in> set (rmatch r2 s1)"
  using assms by auto

lemma rmatch_first_group:
  assumes s': "s' \<in> set (rmatch (Seq (Group n A) R) s)"
    and A: "chrs_in P A" "starts_in Q A" "gids A = {}" and R: "n \<notin> gids R" and s: "caps s = []"
  shows "\<exists>c w. map_of (caps s') n = Some (c # w) \<and> Q c \<and> list_all P (c # w) \<and>
               length (c # w) \<le> length (rest s)"
proof -
  from s' obtain s1 where s1: "s1 \<in> set (rmatch (Group n A) s)" and s2: "s' \<in> set (rmatch R s1)"
    by (rule rmatch_Seq_cases)
  from s1 obtain sA where sA: "sA \<in> set (rmatch A s)"
    and s1_eq: "s1 = sA\<lparr>caps := (n, take (pos sA - pos s) (rest s)) # caps sA\<rparr>"
    by auto
  from rmatch_consumed [OF sA, of P Q] obtain g where g: "consumed A P Q s sA g" ..
  from g A s obtain new where "caps sA = new" "\<forall>x \<in> set new. fst x \<in> {}"
    by (auto simp: consumed_def)
  then have "caps sA = []"
    by (cases new) auto
  from g A have taken: "take (pos sA - pos s) (rest s) = g"
    and "list_all P g" and first: "\<exists>c w. g = c # w \<and> Q c" and "length g \<le> length (rest s)"
    by (auto simp: consumed_def)
  with s1_eq \<open>caps sA = []\<close> have caps1: "caps s1 = [(n, g)]"
    by simp
  from rmatch_consumed [OF s2, of P Q] obtain w where "consumed R P Q s1 s' w" ..
  then obtain new where new: "caps s' = new @ caps s1" "\<forall>x \<in> set new. fst x \<in> gids R"
    by (auto simp: consumed_def)
  with R have "map_of new n = None"
    by (auto simp: map_of_eq_None_iff)
  with new caps1 have "map_of (caps s') n = Some g"
    by (simp add: map_add_def)
  with first \<open>list_all P g\<close> \<open>length g \<le> length (rest s)\<close> show ?thesis
    by auto
qed

lemma marketValue_re_shape:
  "\<exists>A R. marketValue_re = Seq (Group 1 A) R \<and> chrs_in amount_char A \<and> starts_in is_digit A \<and>
         gids A = {} \<and> 1 \<notin> gids R"
  by (simp add: marketValue_re_def rep_def Opt_def digit_def lit_def lits_def space_def one_of_def
        js_def amount_char_def eval_nat_numeral)

lemma marketValue_capture:
  assumes "match t marketValue_re = Some m"
  shows "\<exists>c w. capture m 1 = Some (c # w) \<and> is_digit c \<and> list_all amount_char (c # w) \<and>
               length (c # w) \<le> length t"
proof -
  from marketValue_re_shape obtain A R where shape: "marketValue_re = Seq (Group 1 A) R"
    "chrs_in amount_char A" "starts_in is_digit A" "gids A = {}" "1 \<notin> gids R"
    by blast
  from assms obtain j s' where j: "j \<le> length t"
    and s': "s' \<in> set (rmatch marketValue_re \<lparr>pos = 0 + j, rest = drop j t, caps = []\<rparr>)"
    and m: "groups m = caps s'"
    unfolding match_def by (blast dest: exec_from_result)
  from s' shape(1) have "s' \<in> set (rmatch (Seq (Group 1 A) R) \<lparr>pos = 0 + j, rest = drop j t, caps = []\<rparr>)"
    by simp
  from rmatch_first_group [OF this shape(2-5)] m show ?thesis
    by (fastforce simp: capture_def)
qed

section \<open>Digits and the value of a decimal literal\<close>

lemma digit_not_other:
  assumes "is_digit c"
  shows "\<not> is_space c" "c \<noteq> 0x2D" "c \<noteq> 0x2B" "c \<noteq> 0x2E" "c \<noteq> 0x2C" "c \<noteq> 0x49"
        "c \<noteq> 0x65" "c \<noteq> 0x45"
  using assms by (auto simp: is_digit_def is_space_def word_le_def)

lemma digit_value: "is_digit c \<Longrightarrow> 0 \<le> uint c - 48 \<and> uint c - 48 \<le> 9"
  by (auto simp: is_digit_def word_le_def)

lemma foldl_digits_bounds:
  "list_all is_digit ds \<Longrightarrow> 0 \<le> a \<Longrightarrow>
     0 \<le> foldl (\<lambda>a c. 10 * a + (uint c - 48)) a ds \<and>
     foldl (\<lambda>a c. 10 * a + (uint c - 48)) a ds < (a + 1) * 10 ^ length ds"
proof (induction ds arbitrary: a)
  case Nil
  then show ?case by simp
next
  case (Cons d ds)
  then have d: "0 \<le> uint d - 48" "uint d - 48 \<le> 9"
    using digit_value [of d] by simp_all
  let ?a = "10 * a + (uint d - 48)"
  from Cons.prems d have a: "0 \<le> ?a" by simp
  from Cons.prems have "list_all is_digit ds" by simp
  from Cons.IH [OF this a]
  have lo: "0 \<le> foldl (\<lambda>a c. 10 * a + (uint c - 48)) ?a ds"
    and hi: "foldl (\<lambda>a c. 10 * a + (uint c - 48)) ?a ds < (?a + 1) * 10 ^ length ds"
    by simp_all
  from d have "?a + 1 \<le> (a + 1) * 10" by simp
  then have "(?a + 1) * 10 ^ length ds \<le> ((a + 1) * 10) * 10 ^ length ds"
    by (rule mult_right_mono) simp
  with hi have "foldl (\<lambda>a c. 10 * a + (uint c - 48)) ?a ds < ((a + 1) * 10) * 10 ^ length ds"
    by (rule less_le_trans)
  then have "foldl (\<lambda>a c. 10 * a + (uint c - 48)) ?a ds < (a + 1) * 10 ^ length (d # ds)"
    by (simp add: algebra_simps)
  with lo show ?case by simp
qed

lemma digits_val_bounds:
  "list_all is_digit ds \<Longrightarrow> 0 \<le> digits_val ds \<and> digits_val ds < 10 ^ length ds"
  using foldl_digits_bounds [of ds 0] by (simp add: digits_val_def)

lemma takeWhile_digits: "list_all is_digit (takeWhile is_digit s)"
  by (induction s) simp_all

lemma dropWhile_amount:
  assumes "list_all amount_char s" and "dropWhile is_digit s = d # ds"
  shows "\<not> is_digit d" "d = 0x2E \<or> d = 0x2C" "list_all amount_char ds" "length ds < length s"
proof -
  from assms(2) show nd: "\<not> is_digit d"
    by (metis hd_dropWhile list.sel(1) list.distinct(1))
  from assms(2) have "set (d # ds) \<subseteq> set s"
    by (metis set_dropWhileD subsetI)
  with assms(1) have all: "list_all amount_char (d # ds)"
    by (auto simp: list_all_iff)
  with nd show "d = 0x2E \<or> d = 0x2C"
    by (simp add: amount_char_def)
  from all show "list_all amount_char ds"
    by simp
  have "length (dropWhile is_digit s) \<le> length s"
    by (rule length_dropWhile_le)
  with assms(2) show "length ds < length s"
    by simp
qed

lemma parse_exponent_amount:
  assumes "list_all amount_char s"
  shows "parse_exponent (dropWhile is_digit s) = 0"
proof (cases "dropWhile is_digit s")
  case Nil
  show ?thesis unfolding parse_exponent_def Nil by simp
next
  case (Cons d ds)
  from dropWhile_amount(2) [OF assms Cons] have "d \<noteq> 0x65" "d \<noteq> 0x45"
    by auto
  then show ?thesis unfolding parse_exponent_def Cons by simp
qed

lemma parse_unsigned_amount:
  assumes c: "is_digit c" and all: "list_all amount_char (c # w)"
  shows "\<exists>fp. list_all is_digit fp \<and>
          parse_unsigned (c # w) =
            to_double (of_int (digits_val (takeWhile is_digit (c # w))) +
                       of_int (digits_val fp) / 10 ^ length fp)"
proof -
  have inf: "\<not> prefix (js ''Infinity'') (c # w)"
    using digit_not_other(6) [OF c] by (simp add: js_def)
  have ip: "takeWhile is_digit (c # w) \<noteq> []"
    using c by simp
  show ?thesis
  proof (cases "dropWhile is_digit (c # w)")
    case Nil
    with inf ip have "parse_unsigned (c # w) =
        to_double (of_int (digits_val (takeWhile is_digit (c # w))) + of_int (digits_val []) / 10 ^ length ([]::jsstring))"
      unfolding parse_unsigned_def Let_def parse_exponent_def by simp
    then show ?thesis
      by (intro exI [of _ "[]"]) simp
  next
    case (Cons d ds)
    note rest = dropWhile_amount [OF all Cons]
    show ?thesis
    proof (cases "d = 0x2E")
      case True
      from rest(3) have "parse_exponent (dropWhile is_digit ds) = 0"
        by (rule parse_exponent_amount)
      with inf ip True have "parse_unsigned (c # w) =
          to_double (of_int (digits_val (takeWhile is_digit (c # w))) +
                     of_int (digits_val (takeWhile is_digit ds)) / 10 ^ length (takeWhile is_digit ds))"
        unfolding parse_unsigned_def Let_def Cons by simp
      with takeWhile_digits [of ds] show ?thesis
        by blast
    next
      case False
      with rest(2) have "d \<noteq> 0x65" "d \<noteq> 0x45"
        by auto
      with inf ip False have "parse_unsigned (c # w) =
          to_double (of_int (digits_val (takeWhile is_digit (c # w))) + of_int (digits_val []) / 10 ^ length ([]::jsstring))"
        unfolding parse_unsigned_def Let_def Cons parse_exponent_def by simp
      then show ?thesis
        by (intro exI [of _ "[]"]) simp
    qed
  qed
qed

lemma parseFloat_amount:
  assumes c: "is_digit c" and all: "list_all amount_char (c # w)"
  shows "\<exists>q. parseFloat (c # w) = to_double q \<and> 0 \<le> q \<and> q < 10 ^ length (c # w)"
proof -
  have pf: "parseFloat (c # w) = parse_unsigned (c # w)"
    using digit_not_other [OF c] by (simp add: parseFloat_def)
  from parse_unsigned_amount [OF c all] obtain fp where fp: "list_all is_digit fp"
    and pu: "parse_unsigned (c # w) =
            to_double (of_int (digits_val (takeWhile is_digit (c # w))) +
                       of_int (digits_val fp) / 10 ^ length fp)"
    by blast
  let ?ip = "takeWhile is_digit (c # w)"
  let ?q = "of_int (digits_val ?ip) + of_int (digits_val fp) / 10 ^ length fp :: rat"
  from digits_val_bounds [OF takeWhile_digits, of "c # w"]
  have iv: "0 \<le> digits_val ?ip" "digits_val ?ip + 1 \<le> 10 ^ length ?ip"
    by simp_all
  from digits_val_bounds [OF fp] have fv: "0 \<le> digits_val fp" "digits_val fp < 10 ^ length fp"
    by simp_all
  have frac0: "0 \<le> (of_int (digits_val fp) / 10 ^ length fp :: rat)"
    using fv(1) by simp
  have "(of_int (digits_val fp) :: rat) < of_int (10 ^ length fp)"
    using fv(2) by (simp only: of_int_less_iff)
  then have frac1: "(of_int (digits_val fp) / 10 ^ length fp :: rat) < 1"
    by simp
  have "(of_int (digits_val ?ip + 1) :: rat) \<le> of_int (10 ^ length ?ip)"
    using iv(2) by (simp only: of_int_le_iff)
  then have "(of_int (digits_val ?ip) :: rat) + 1 \<le> 10 ^ length ?ip"
    by simp
  moreover have "(10::rat) ^ length ?ip \<le> 10 ^ length (c # w)"
    by (rule power_increasing) (simp_all add: length_takeWhile_le)
  ultimately have "?q < 10 ^ length (c # w)"
    using frac1 by linarith
  moreover have "0 \<le> ?q"
    using iv(1) frac0 by simp
  ultimately show ?thesis
    using pf pu by auto
qed

lemma raw_amount:
  assumes c: "is_digit c" and all: "list_all amount_char (c # w)"
  shows "\<exists>w'. replace_first_comma (remove_dots (c # w)) = c # w' \<and>
              list_all amount_char (c # w') \<and> length (c # w') \<le> length (c # w)"
proof -
  have rfc: "list_all amount_char (replace_first_comma s) \<and> length (replace_first_comma s) = length s"
    if "list_all amount_char s" for s
    using that by (induction s) (auto simp: amount_char_def)
  have "list_all amount_char (remove_dots w)" and "length (remove_dots w) \<le> length w"
    using all by (simp_all add: remove_dots_def list_all_iff)
  with rfc [of "remove_dots w"] digit_not_other [OF c] all show ?thesis
    by (simp add: remove_dots_def)
qed

section \<open>Rounding to a double\<close>

lemma bitlen_numeral: "bitlen (numeral k) = bitlen (numeral k div 2) + 1"
  by (subst compute_bitlen) simp

lemma bitlen_one: "bitlen 1 = 1"
  by (subst compute_bitlen) (simp add: compute_bitlen)

lemma floor_rat_numeral: "\<lfloor>numeral a / numeral b :: rat\<rfloor> = numeral a div numeral b"
  by (metis floor_divide_of_int_eq of_int_numeral)

lemma floor_rat_neg_numeral: "\<lfloor>- (numeral a / numeral b) :: rat\<rfloor> = - numeral a div numeral b"
  by (metis floor_divide_of_int_eq of_int_numeral of_int_minus minus_divide_left)

lemmas num_ev = ilog2_def round_half_even_def round_pos_def to_double_def signed_inf_def
  digits_val_def parse_exponent_def parse_unsigned_def parseFloat_def bitlen_numeral bitlen_one
  ceiling_def floor_rat_numeral floor_rat_neg_numeral Let_def js_def is_digit_def is_space_def

lemma powi_nat: "0 \<le> e \<Longrightarrow> (2::rat) powi e = of_int (2 ^ nat e)"
  by (simp add: power_int_def)

lemma ilog2_bounds:
  assumes "0 < q"
  shows "2 powi (ilog2 q) \<le> q \<and> q < 2 powi (ilog2 q + 1)"
proof (cases "1 \<le> q")
  case True
  let ?n = "\<lfloor>q\<rfloor>"
  from True have n: "0 < ?n" by simp
  from bitlen_bounds [OF n] have lo: "2 ^ nat (bitlen ?n - 1) \<le> ?n" and hi: "?n < 2 ^ nat (bitlen ?n)"
    by simp_all
  from n have b: "1 \<le> bitlen ?n"
    using bitlen_eq_zero_iff [of ?n] bitlen_nonneg [of ?n] by linarith
  from True have e: "ilog2 q = bitlen ?n - 1" by (simp add: ilog2_def)
  have "(2::rat) powi (bitlen ?n - 1) = of_int (2 ^ nat (bitlen ?n - 1))"
    using b by (intro powi_nat) simp
  also have "\<dots> \<le> of_int ?n"
    using lo by (simp only: of_int_le_iff)
  also have "\<dots> \<le> q" by simp
  finally have 1: "2 powi (ilog2 q) \<le> q" by (simp add: e)
  have "q < of_int (?n + 1)"
    using floor_correct [of q] by (rule conjunct2)
  also have "\<dots> \<le> of_int (2 ^ nat (bitlen ?n))"
  proof -
    from hi have "?n + 1 \<le> 2 ^ nat (bitlen ?n)" by simp
    then show ?thesis by (simp only: of_int_le_iff)
  qed
  also have "\<dots> = (2::rat) powi (bitlen ?n)"
    using b by (intro powi_nat [symmetric]) simp
  finally have "q < 2 powi (ilog2 q + 1)" by (simp add: e)
  with 1 show ?thesis ..
next
  case False
  let ?n = "\<lceil>1 / q\<rceil>"
  let ?b = "bitlen (?n - 1)"
  from False assms have inv: "1 < 1 / q" by simp
  then have n: "0 < ?n - 1"
    by (simp add: less_ceiling_iff)
  from bitlen_bounds [OF n] have lo: "2 ^ nat (?b - 1) \<le> ?n - 1" and hi: "?n - 1 < 2 ^ nat ?b"
    by simp_all
  from n have b: "1 \<le> ?b"
    using bitlen_eq_zero_iff [of "?n - 1"] bitlen_nonneg [of "?n - 1"] by linarith
  from False have e: "ilog2 q = - ?b" by (simp add: ilog2_def)
  have p2: "(2::rat) powi ?b = of_int (2 ^ nat ?b)"
    using b by (intro powi_nat) simp
  have "1 / q \<le> of_int ?n" by simp
  also have "\<dots> \<le> of_int (2 ^ nat ?b)"
  proof -
    from hi have "?n \<le> 2 ^ nat ?b" by simp
    then show ?thesis by (simp only: of_int_le_iff)
  qed
  finally have "1 / q \<le> 2 powi ?b" by (simp only: p2)
  moreover have "0 < (2::rat) powi ?b" by simp
  ultimately have "1 / (2 powi ?b) \<le> q"
    using assms by (simp add: field_simps)
  then have 1: "2 powi (ilog2 q) \<le> q"
    by (simp add: e power_int_minus_divide)
  have p1: "(2::rat) powi (?b - 1) = of_int (2 ^ nat (?b - 1))"
    using b by (intro powi_nat) simp
  have "(of_int (2 ^ nat (?b - 1)) :: rat) \<le> of_int (?n - 1)"
    using lo by (simp only: of_int_le_iff)
  also have "\<dots> < 1 / q"
    using ceiling_correct [of "1 / q"] by simp
  finally have "2 powi (?b - 1) < 1 / q" by (simp only: p1)
  moreover have "0 < (2::rat) powi (?b - 1)" by simp
  ultimately have "q < 1 / (2 powi (?b - 1))"
    using assms by (simp add: field_simps)
  also have "\<dots> = 2 powi (- (?b - 1))"
    by (simp only: power_int_minus_divide)
  finally have "q < 2 powi (ilog2 q + 1)" by (simp add: e)
  with 1 show ?thesis ..
qed

lemma round_half_even_bounds:
  "of_int \<lfloor>x\<rfloor> \<le> (of_int (round_half_even x) :: rat) \<and> of_int (round_half_even x) \<le> x + 1"
proof -
  have "\<lfloor>x\<rfloor> \<le> round_half_even x \<and> round_half_even x \<le> \<lfloor>x\<rfloor> + 1"
    by (simp add: round_half_even_def Let_def)
  moreover have "(of_int \<lfloor>x\<rfloor> :: rat) \<le> x" by simp
  ultimately show ?thesis
    by (metis add_mono_thms_linordered_semiring(1) of_int_1 of_int_add of_int_le_iff order_refl order_trans)
qed

lemma round_pos_value:
  assumes "0 < q"
  obtains r where "round_pos q = (if 2 ^ 1024 \<le> r then PosInf else Num r)"
    and "0 \<le> r" and "r \<le> 2 * q + 1" and "2 ^ 1024 \<le> q \<Longrightarrow> 2 ^ 1024 \<le> r"
proof -
  define p where "p = max (ilog2 q) (- 1022) - 52"
  define x where "x = q / 2 powi p"
  define m where "m = round_half_even x"
  define r where "r = of_int m * (2::rat) powi p"
  have pw: "0 < (2::rat) powi p" by simp
  have rp: "round_pos q = (if 2 ^ 1024 \<le> r then PosInf else Num r)"
    by (simp add: round_pos_def Let_def p_def x_def m_def r_def)
  from assms pw have x0: "0 \<le> x" by (simp add: x_def)
  from round_half_even_bounds [of x] have fl: "of_int \<lfloor>x\<rfloor> \<le> (of_int m :: rat)"
    and up: "of_int m \<le> x + 1"
    by (simp_all add: m_def)
  from x0 have "0 \<le> \<lfloor>x\<rfloor>" by simp
  then have "(0::rat) \<le> of_int \<lfloor>x\<rfloor>" by simp
  with fl have m0: "(0::rat) \<le> of_int m" by linarith
  with pw have r0: "0 \<le> r" by (simp add: r_def)
  have xq: "x * 2 powi p = q"
    using pw by (simp add: x_def)
  from up pw have "of_int m * 2 powi p \<le> (x + 1) * 2 powi p"
    by (intro mult_right_mono) simp_all
  then have rq: "r \<le> q + 2 powi p"
    by (simp add: r_def algebra_simps xq)
  from ilog2_bounds [OF assms] have lo: "2 powi (ilog2 q) \<le> q" and hi: "q < 2 powi (ilog2 q + 1)"
    by simp_all
  have "(2::rat) powi p \<le> q + 1"
  proof (cases "- 1022 \<le> ilog2 q")
    case True
    then have "p \<le> ilog2 q" by (simp add: p_def)
    then have "(2::rat) powi p \<le> 2 powi (ilog2 q)"
      by (intro power_int_increasing) simp_all
    with lo show ?thesis by linarith
  next
    case False
    then have "p = - 1074" by (simp add: p_def)
    then have "(2::rat) powi p \<le> 1" by (simp add: power_int_minus_divide)
    with assms show ?thesis by linarith
  qed
  with rq have r1: "r \<le> 2 * q + 1" by linarith
  have big: "2 ^ 1024 \<le> r" if "2 ^ 1024 \<le> q"
  proof -
    have e: "1024 \<le> ilog2 q"
    proof (rule ccontr)
      assume "\<not> 1024 \<le> ilog2 q"
      then have "ilog2 q + 1 \<le> 1024" by simp
      then have "(2::rat) powi (ilog2 q + 1) \<le> 2 powi 1024"
        by (intro power_int_increasing) simp_all
      also have "\<dots> = 2 ^ 1024" by simp
      finally show False using hi that by linarith
    qed
    then have p: "p = ilog2 q - 52" by (simp add: p_def)
    have "(2::rat) powi (ilog2 q) = 2 powi (52 + p)" by (simp add: p)
    also have "\<dots> = 2 powi 52 * 2 powi p" by (rule power_int_add) simp
    finally have split: "(2::rat) powi (ilog2 q) = 2 powi 52 * 2 powi p" .
    from lo pw have "2 powi 52 \<le> x"
      by (simp add: x_def split pos_le_divide_eq)
    then have "(of_int (2 ^ 52) :: rat) \<le> x" by simp
    then have "2 ^ 52 \<le> \<lfloor>x\<rfloor>" by (simp only: le_floor_iff)
    then have "(of_int (2 ^ 52) :: rat) \<le> of_int \<lfloor>x\<rfloor>" by (simp only: of_int_le_iff)
    with fl have "(of_int (2 ^ 52) :: rat) \<le> of_int m" by linarith
    then have "(2::rat) powi 52 \<le> of_int m" by simp
    with pw have "2 powi 52 * 2 powi p \<le> r"
      unfolding r_def by (intro mult_right_mono) simp_all
    then have "(2::rat) powi (ilog2 q) \<le> r" by (simp only: split)
    moreover have "(2::rat) powi 1024 \<le> 2 powi (ilog2 q)"
      using e by (intro power_int_increasing) simp_all
    ultimately have "(2::rat) powi 1024 \<le> r" by linarith
    then show ?thesis by simp
  qed
  from rp r0 r1 big show ?thesis by (rule that)
qed

lemma to_double_value:
  assumes "0 \<le> q"
  obtains r where "to_double q = (if 2 ^ 1024 \<le> r then PosInf else Num r)"
    and "0 \<le> r" and "r \<le> 2 * q + 1" and "2 ^ 1024 \<le> q \<Longrightarrow> 2 ^ 1024 \<le> r"
proof (cases "q = 0")
  case True
  have "to_double q = (if 2 ^ 1024 \<le> (0::rat) then PosInf else Num 0)"
    by (simp add: to_double_def True)
  moreover have "(0::rat) \<le> 2 * q + 1" by (simp add: True)
  moreover have "2 ^ 1024 \<le> (0::rat)" if "2 ^ 1024 \<le> q"
    using that by (simp add: True)
  ultimately show ?thesis
    by (intro that [of 0]) simp_all
next
  case False
  with assms have pos: "0 < q" by simp
  then have "to_double q = round_pos q" by (simp add: to_double_def)
  with round_pos_value [OF pos] that show ?thesis by metis
qed

lemma to_double_nonneg:
  assumes "0 \<le> q"
  shows "to_double q = PosInf \<or> (\<exists>r. to_double q = Num r \<and> 0 \<le> r \<and> r \<le> 2 * q + 1)"
  using to_double_value [OF assms] by (metis (full_types))

lemma to_double_finite:
  assumes "0 \<le> q" and "2 * q + 1 < 2 ^ 1024"
  shows "\<exists>r. to_double q = Num r \<and> 0 \<le> r \<and> r \<le> 2 * q + 1"
proof -
  from to_double_value [OF assms(1)] obtain r
    where r: "to_double q = (if 2 ^ 1024 \<le> r then PosInf else Num r)" "0 \<le> r" "r \<le> 2 * q + 1"
    by metis
  with assms(2) have "\<not> 2 ^ 1024 \<le> r" by linarith
  with r show ?thesis by auto
qed

lemma to_double_overflow:
  assumes "2 ^ 1024 \<le> q"
  shows "to_double q = PosInf"
proof -
  have "(0::rat) \<le> 2 ^ 1024" by simp
  with assms have "0 \<le> q" by linarith
  from to_double_value [OF this] assms show ?thesis by metis
qed

section \<open>The market value\<close>

lemma NA_no_match: "match NA marketValue_re = None"
  by code_simp



lemma match_no_dot:
  "match (js ''4,00 mi '' @ [euro]) marketValue_re =
     Some \<lparr>whole = js ''4,00 mi '' @ [euro],
           groups = [(3, [euro]), (2, js ''mi''), (1, js ''4,00'')]\<rparr>"
  by code_simp

lemma parse_4: "parseFloat (replace_first_comma (remove_dots (js ''4,00''))) = Num 4"
  by (simp add: remove_dots_def num_ev)



lemma times_thousand: "fmul (Num 500) (Num 1000) = Num 500000" "fmul (Num 4) (Num 1000) = Num 4000"
  by (simp_all add: num_ev)

lemma normalize_matched:
  assumes "match t marketValue_re = Some m"
  shows "\<exists>g. capture m 1 = Some g \<and>
           normalize_marketValue t =
             Inr \<lparr>value = fmul (parseFloat (replace_first_comma (remove_dots g)))
                              (if capture m 2 = Some (js ''mi.'') then Num 1000000 else Num 1000),
                  currency = capture m 3\<rparr>"
proof -
  from marketValue_capture [OF assms] obtain g where g: "capture m 1 = Some g"
    by blast
  from assms NA_no_match have "t \<noteq> NA"
    by auto
  with assms g show ?thesis
    by (simp add: normalize_marketValue_def Let_def)
qed


lemma normalize_eval:
  assumes "match t marketValue_re = Some m" and "capture m 1 = Some g" and "capture m 2 = u"
    and "capture m 3 = cur" and "parseFloat (replace_first_comma (remove_dots g)) = x"
    and "(if u = Some (js ''mi.'') then fmul x (Num 1000000) else fmul x (Num 1000)) = v"
  shows "normalize_marketValue t = Inr \<lparr>value = v, currency = cur\<rparr>"
  using normalize_matched [OF assms(1)] assms(2-) by auto

lemma unit_tests: "js ''mil'' \<noteq> js ''mi.''" "js ''mi'' \<noteq> js ''mi.''"
  by code_simp+



lemma normalize_no_dot:
  "normalize_marketValue (js ''4,00 mi '' @ [euro]) = Inr \<lparr>value = Num 4000, currency = Some [euro]\<rparr>"
proof (rule normalize_eval [OF match_no_dot])
  show "capture \<lparr>whole = js ''4,00 mi '' @ [euro],
           groups = [(3, [euro]), (2, js ''mi''), (1, js ''4,00'')]\<rparr> 1 = Some (js ''4,00'')"
    by (simp add: capture_def)
  show "capture \<lparr>whole = js ''4,00 mi '' @ [euro],
           groups = [(3, [euro]), (2, js ''mi''), (1, js ''4,00'')]\<rparr> 2 = Some (js ''mi'')"
    by (simp add: capture_def)
  show "capture \<lparr>whole = js ''4,00 mi '' @ [euro],
           groups = [(3, [euro]), (2, js ''mi''), (1, js ''4,00'')]\<rparr> 3 = Some [euro]"
    by (simp add: capture_def)
  show "parseFloat (replace_first_comma (remove_dots (js ''4,00''))) = Num 4"
    by (rule parse_4)
  show "(if Some (js ''mi'') = Some (js ''mi.'') then fmul (Num 4) (Num 1000000)
         else fmul (Num 4) (Num 1000)) = Num 4000"
    by (simp only: option.inject unit_tests simp_thms if_False times_thousand)
qed





text \<open>
  C10.  When the pattern matches and the unit it captured is \<open>mi\<close> without the full stop,
  the comparison with \<open>'mi.'\<close> fails and the amount is multiplied by 1000: \<open>"4,00 mi \<euro>"\<close>
  gives the value 4000.
\<close>

theorem unit_without_dot_is_thousands:
  "(\<forall>m. match t marketValue_re = Some m \<and> capture m 2 = Some (js ''mi'') \<longrightarrow>
      (\<exists>g. capture m 1 = Some g \<and>
         normalize_marketValue t =
           Inr \<lparr>value = fmul (parseFloat (replace_first_comma (remove_dots g))) (Num 1000),
                currency = capture m 3\<rparr>)) \<and>
   match (js ''4,00 mi '' @ [euro]) marketValue_re \<noteq> None \<and>
   normalize_marketValue (js ''4,00 mi '' @ [euro]) = Inr \<lparr>value = Num 4000, currency = Some [euro]\<rparr>"
proof -
  have "\<exists>g. capture m 1 = Some g \<and>
         normalize_marketValue t =
           Inr \<lparr>value = fmul (parseFloat (replace_first_comma (remove_dots g))) (Num 1000),
                currency = capture m 3\<rparr>"
    if "match t marketValue_re = Some m" "capture m 2 = Some (js ''mi'')" for m
    using normalize_matched [OF that(1)] that(2) unit_tests(2) by simp
  moreover have "match (js ''4,00 mi '' @ [euro]) marketValue_re \<noteq> None"
    by (simp add: match_no_dot)
  ultimately show ?thesis
    using normalize_no_dot by blast
qed

theorem unit_without_dot_is_thousands_witness:
  "normalize_marketValue (js ''4,00 mi '' @ [euro]) =
     Inr \<lparr>value = fmul (Num 4) (Num 1000), currency = Some [euro]\<rparr> \<and>
   fmul (Num 4) (Num 1000) = Num 4000"
proof -
  let ?m = "\<lparr>whole = js ''4,00 mi '' @ [euro],
           groups = [(3, [euro]), (2, js ''mi''), (1, js ''4,00'')]\<rparr>"
  have unit: "capture ?m 2 = Some (js ''mi'')" and amount: "capture ?m 1 = Some (js ''4,00'')"
    and cur: "capture ?m 3 = Some [euro]"
    by (simp_all add: capture_def)
  from unit_without_dot_is_thousands [of "js ''4,00 mi '' @ [euro]"] match_no_dot unit
  obtain g where "capture ?m 1 = Some g"
    and "normalize_marketValue (js ''4,00 mi '' @ [euro]) =
           Inr \<lparr>value = fmul (parseFloat (replace_first_comma (remove_dots g))) (Num 1000),
                currency = capture ?m 3\<rparr>"
    by blast
  with amount cur show ?thesis
    by (simp only: option.inject parse_4 times_thousand simp_thms)
qed

end
